theory Spec2Isabelle
  imports Complex_Main
begin

section \<open>The racing-car environment of \<open>environment/racing_car.py\<close>\<close>

text \<open>
  A shallow embedding of the module \<open>environment/racing_car.py\<close>: the function
  \<open>scale_range\<close> and the class \<open>RacingCar\<close> with its methods \<open>reset\<close>, \<open>step\<close>,
  \<open>close\<close>, \<open>_interrupt_handle\<close> and \<open>_update_pwm\<close>.

  Conventions of the embedding.
  \<^item> In the class, Python numbers are exact: a float is a \<^typ>\<open>real\<close>, an int an
    \<^typ>\<open>int\<close>, and \<open>/\<close> is Python 3's true division. The commands and ranges that
    \<open>_update_pwm\<close> is stated for here are small integers, where doubles are exact
    (\<open>servo_ranges_exact\<close> below). The algebra of \<open>scale_range\<close> itself depends on rounding
    and is stated over a model of IEEE doubles, \<open>scale_range_double\<close>.
  \<^item> An exception is a value: every method returns the object after the call together
    with either the exception raised or the value returned.
  \<^item> The servo interface \<open>self._pi.set_servo_pulsewidth\<close> of the external GPIO library is a
    log of the calls made, \<open>(pin, pulse width)\<close>, oldest first.
  \<^item> The camera is an input: the frame that \<open>self._cam.capture\<close> writes into \<open>self._image\<close>
    is a parameter of \<open>reset\<close> and \<open>step\<close>.
  \<^item> The callback \<open>_interrupt_handle\<close> runs between method calls; interleavings inside one
    method call are outside the model.
\<close>

subsection \<open>Exceptions\<close>

datatype error =
  AssertionError string
  | ZeroDivisionError
  | ValueError

subsection \<open>The signal scaler\<close>

text \<open>
  \<^verbatim>\<open>def scale_range(old_value, old_min, old_max, new_min, new_max):
    return ((old_value - old_min) / (old_max - old_min)) * (new_max - new_min) + new_min\<close>
  Dividing by zero raises in Python, where HOL would return 0.
\<close>

definition scale_range :: "real \<Rightarrow> real \<Rightarrow> real \<Rightarrow> real \<Rightarrow> real \<Rightarrow> error + real" where
  "scale_range old_value old_min old_max new_min new_max =
     (if old_max - old_min = 0 then Inl ZeroDivisionError
      else Inr (((old_value - old_min) / (old_max - old_min)) * (new_max - new_min) + new_min))"

subsection \<open>The object\<close>

text \<open>The dictionary \<open>self._car_info\<close>; its five keys are fixed, so it is a record.\<close>

record info_dict =
  Steering_signal :: real
  Motor_signal :: real
  Reward :: real
  Car_speed :: real
  Done :: bool

type_synonym frame = "nat list"

record RacingCar =
  car_info :: info_dict
  motor_limitation :: real
  encoder_pulse_count :: int
  image :: frame
  pwm_calls :: "(int \<times> real) list"

text \<open>Pin and hardware configuration, as assigned in \<open>__init__\<close>.\<close>

definition STEERING_SERVO_PIN :: int where "STEERING_SERVO_PIN = 4"
definition MOTOR_PIN :: int where "MOTOR_PIN = 17"
definition LEFT_LINE_SENSOR_PIN :: int where "LEFT_LINE_SENSOR_PIN = 1"
definition RIGHT_LINE_SENSOR_PIN :: int where "RIGHT_LINE_SENSOR_PIN = 2"
definition ENCODER_PUL_PIN :: int where "ENCODER_PUL_PIN = 12"
definition ENCODER_ZERO_PIN :: int where "ENCODER_ZERO_PIN = 13"

definition TIRE_DIAMETER :: real where "TIRE_DIAMETER = 0.05"
definition GEAR_RATIO :: real where "GEAR_RATIO = 145 / 35"
definition ENCODER_LINE :: real where "ENCODER_LINE = 512"
definition SERVO_RANGE :: real where "SERVO_RANGE = 200"
definition MOTOR_RANGE :: real where "MOTOR_RANGE = 500"

definition SPEED_UPDATE_INTERVAL :: real where "SPEED_UPDATE_INTERVAL = 500"
definition REWARD_UPDATE_INTERVAL :: real where "REWARD_UPDATE_INTERVAL = 500"

text \<open>
  The names \<open>pigpio.RISING_EDGE\<close> and \<open>pigpio.TIMEOUT\<close> that \<open>_interrupt_handle\<close> compares
  the level of an event with. The library is not part of the repository; the values are
  the ones it gives the two names.
\<close>

definition RISING_EDGE :: int where "RISING_EDGE = 0"
definition TIMEOUT :: int where "TIMEOUT = 2"

text \<open>
  The level that the library passes to a callback is 0 for a change to low (a falling
  edge), 1 for a change to high (a rising edge) and 2 for a watchdog timeout.
  \<open>pigpio.RISING_EDGE\<close> is the edge selector given to \<open>self._pi.callback\<close> in \<open>__init__\<close>;
  as a level, its value 0 is that of a falling edge. The level of a rising edge:
\<close>

definition CALLBACK_LEVEL_RISING :: int where "CALLBACK_LEVEL_RISING = 1"

subsection \<open>Actuation\<close>

definition set_servo_pulsewidth :: "RacingCar \<Rightarrow> int \<Rightarrow> real \<Rightarrow> RacingCar" where
  "set_servo_pulsewidth self pin pwm_wave = self\<lparr>pwm_calls := pwm_calls self @ [(pin, pwm_wave)]\<rparr>"

text \<open>
  \<^verbatim>\<open>def _update_pwm(self, steering_signal, motor_signal):
    pwm_wave = scale_range(steering_signal, -1, 1, (1500 - self._SERVO_RANGE), (1500 + self._SERVO_RANGE))
    self._pi.set_servo_pulsewidth(self._STEERING_SERVO_PIN, pwm_wave)
    pwm_wave = scale_range(motor_signal, -1, 1, (1500 - self._MOTOR_RANGE), (1500 + self._MOTOR_RANGE))
    self._pi.set_servo_pulsewidth(self._MOTOR_PIN, pwm_wave)\<close>
\<close>

definition update_pwm :: "RacingCar \<Rightarrow> real \<Rightarrow> real \<Rightarrow> RacingCar \<times> (error + unit)" where
  "update_pwm self steering_signal motor_signal =
     (case scale_range steering_signal (- 1) 1 (1500 - SERVO_RANGE) (1500 + SERVO_RANGE) of
        Inl e \<Rightarrow> (self, Inl e)
      | Inr pwm_wave \<Rightarrow>
          let self1 = set_servo_pulsewidth self STEERING_SERVO_PIN pwm_wave
          in (case scale_range motor_signal (- 1) 1 (1500 - MOTOR_RANGE) (1500 + MOTOR_RANGE) of
                Inl e \<Rightarrow> (self1, Inl e)
              | Inr pwm_wave' \<Rightarrow> (set_servo_pulsewidth self1 MOTOR_PIN pwm_wave', Inr ())))"

subsection \<open>Construction\<close>

text \<open>
  \<open>__init__\<close>, as far as it sets the fields above: the assertion on \<open>motor_limitation\<close>,
  the neutral actuation command, the zeroed dictionary and pulse counter. The image buffer
  is \<open>np.empty\<close>, of unspecified content: it is the parameter \<open>buf\<close>.
\<close>

definition zero_info :: info_dict where
  "zero_info = \<lparr>Steering_signal = 0, Motor_signal = 0, Reward = 0, Car_speed = 0, Done = False\<rparr>"

definition init :: "real \<Rightarrow> frame \<Rightarrow> error + RacingCar" where
  "init motor_limitation' buf =
     (if \<not> motor_limitation' \<le> 1
      then Inl (AssertionError ''\"motor_limitation\" should not be greater than 1.'')
      else
        let self0 = \<lparr>car_info = zero_info, motor_limitation = motor_limitation',
                     encoder_pulse_count = 0, image = buf, pwm_calls = []\<rparr>
        in (case update_pwm self0 0 0 of
              (_, Inl e) \<Rightarrow> Inl e
            | (self1, Inr _) \<Rightarrow> Inr self1))"

subsection \<open>The episode controller\<close>

type_synonym result = "frame \<times> real \<times> bool \<times> info_dict"

text \<open>
  \<^verbatim>\<open>def reset(self):
    self._update_pwm(0, 0)
    self._cam.capture(self._image, 'rgb', use_video_port=True, resize=(...))
    self._car_info = {'Steering signal': 0, 'Motor signal': 0, 'Reward': 0, 'Car speed': 0, 'Done': False}
    return self._image, self._car_info['Reward'], self._car_info['Done'], self._car_info\<close>
\<close>

definition reset :: "RacingCar \<Rightarrow> frame \<Rightarrow> RacingCar \<times> (error + result)" where
  "reset self captured =
     (case update_pwm self 0 0 of
        (self1, Inl e) \<Rightarrow> (self1, Inl e)
      | (self1, Inr _) \<Rightarrow>
          let self2 = self1\<lparr>image := captured\<rparr>;
              self3 = self2\<lparr>car_info := zero_info\<rparr>
          in (self3, Inr (image self3, Reward (car_info self3), Done (car_info self3), car_info self3)))"

text \<open>
  A numpy array: its shape and its elements in row-major order. A well-formed array has
  as many elements as its shape says.
\<close>

datatype ndarray = NDArray (shape: "nat list") (data: "real list")

definition wf_ndarray :: "ndarray \<Rightarrow> bool" where
  "wf_ndarray a = (length (data a) = prod_list (shape a))"

text \<open>\<open>action.max()\<close>: the largest element; numpy raises \<open>ValueError\<close> on an empty array.\<close>

definition amax :: "ndarray \<Rightarrow> error + real" where
  "amax a = (case data a of [] \<Rightarrow> Inl ValueError | x # xs \<Rightarrow> Inr (fold max xs x))"

text \<open>
  \<open>steering_signal, motor_signal = action\<close>: unpacking iterates over the first axis and
  raises \<open>ValueError\<close> unless it yields exactly two values. Step reaches it only with an
  array of shape \<open>(2,)\<close>, whose two values are its two elements.
\<close>

definition unpack2 :: "ndarray \<Rightarrow> error + real \<times> real" where
  "unpack2 a = (case data a of [x, y] \<Rightarrow> Inr (x, y) | _ \<Rightarrow> Inl ValueError)"

text \<open>
  \<^verbatim>\<open>def step(self, action):
    assert action.shape == (2,), 'Incorrect input shape.'
    assert action.max() <= 1, 'Incorrect input value.'
    if self._car_info['Done']:
        steering_signal, motor_signal = 0, 0
    else:
        steering_signal, motor_signal = action
    motor_signal *= self._motor_limitation
    self._car_info['Steering signal'] = steering_signal
    self._car_info['Motor signal'] = motor_signal
    self._update_pwm(steering_signal, motor_signal)
    self._cam.capture(self._image, 'rgb', use_video_port=True, resize=(...))
    return self._image, self._car_info['Reward'], self._car_info['Done'], self._car_info\<close>
\<close>

definition step :: "RacingCar \<Rightarrow> ndarray \<Rightarrow> frame \<Rightarrow> RacingCar \<times> (error + result)" where
  "step self action captured =
     (if shape action \<noteq> [2] then (self, Inl (AssertionError ''Incorrect input shape.''))
      else
        (case amax action of
           Inl e \<Rightarrow> (self, Inl e)
         | Inr m \<Rightarrow>
             if \<not> m \<le> 1 then (self, Inl (AssertionError ''Incorrect input value.''))
             else
               (case (if Done (car_info self) then Inr (0, 0) else unpack2 action) of
                  Inl e \<Rightarrow> (self, Inl e)
                | Inr (steering_signal, motor_signal0) \<Rightarrow>
                    let motor_signal = motor_signal0 * motor_limitation self;
                        self1 = self\<lparr>car_info := (car_info self)\<lparr>Steering_signal := steering_signal\<rparr>\<rparr>;
                        self2 = self1\<lparr>car_info := (car_info self1)\<lparr>Motor_signal := motor_signal\<rparr>\<rparr>
                    in (case update_pwm self2 steering_signal motor_signal of
                          (self3, Inl e) \<Rightarrow> (self3, Inl e)
                        | (self3, Inr _) \<Rightarrow>
                            let self4 = self3\<lparr>image := captured\<rparr>
                            in (self4, Inr (image self4, Reward (car_info self4),
                                            Done (car_info self4), car_info self4))))))"

text \<open>
  \<^verbatim>\<open>def close(self):
    self._cam.close()
    self._update_pwm(0, 0)
    self._pi.stop()\<close>
  Releasing the camera and the GPIO connection leaves no trace in the fields modelled.
\<close>

definition close :: "RacingCar \<Rightarrow> RacingCar \<times> (error + unit)" where
  "close self = update_pwm self 0 0"

subsection \<open>The event handler\<close>

text \<open>
  \<^verbatim>\<open>def _interrupt_handle(self, gpio, level, tick):
    if (gpio == self._LEFT_LINE_SENSOR_PIN) or (gpio == self._RIGHT_LINE_SENSOR_PIN):
        self._car_info['Done'] = True
    elif gpio == self._ENCODER_PUL_PIN:
        if level == pigpio.RISING_EDGE:
            self._encoder_pulse_count += 1
        if level == pigpio.TIMEOUT:
            s = self._encoder_pulse_count / self._ENCODER_LINE * np.pi * self._TIRE_DIAMETER
            t = self._SPEED_UPDATE_INTERVAL / 1000
            self._car_info['Car speed'] = s / t * self._GEAR_RATIO
            self._encoder_pulse_count = 0
    elif gpio == self._ENCODER_ZERO_PIN:
        if level == pigpio.RISING_EDGE:
            self._car_info['Reward'] += 5
        if level == pigpio.TIMEOUT:
            self._car_info['Reward'] -= 1
            if self._car_info['Reward'] < 0:
                self._car_info['Done'] = True\<close>
  The two tests of \<open>level\<close> in a branch are consecutive \<open>if\<close>s, not an \<open>elif\<close> chain, and
  are modelled one after the other. No division here has a zero divisor: the divisors are
  the constants 512 and 500 / 1000.
\<close>

definition encoder_speed :: "int \<Rightarrow> real" where
  "encoder_speed n =
     (let s = real_of_int n / ENCODER_LINE * pi * TIRE_DIAMETER;
          t = SPEED_UPDATE_INTERVAL / 1000
      in s / t * GEAR_RATIO)"

definition interrupt_handle :: "RacingCar \<Rightarrow> int \<Rightarrow> int \<Rightarrow> int \<Rightarrow> RacingCar" where
  "interrupt_handle self gpio level tick =
     (if gpio = LEFT_LINE_SENSOR_PIN \<or> gpio = RIGHT_LINE_SENSOR_PIN
      then self\<lparr>car_info := (car_info self)\<lparr>Done := True\<rparr>\<rparr>
      else if gpio = ENCODER_PUL_PIN then
        let self1 = (if level = RISING_EDGE
                     then self\<lparr>encoder_pulse_count := encoder_pulse_count self + 1\<rparr>
                     else self);
            self2 = (if level = TIMEOUT
                     then self1\<lparr>car_info := (car_info self1)\<lparr>Car_speed := encoder_speed (encoder_pulse_count self1)\<rparr>,
                                encoder_pulse_count := 0\<rparr>
                     else self1)
        in self2
      else if gpio = ENCODER_ZERO_PIN then
        let self1 = (if level = RISING_EDGE
                     then self\<lparr>car_info := (car_info self)\<lparr>Reward := Reward (car_info self) + 5\<rparr>\<rparr>
                     else self);
            self2 = (if level = TIMEOUT
                     then
                       let self1a = self1\<lparr>car_info := (car_info self1)\<lparr>Reward := Reward (car_info self1) - 1\<rparr>\<rparr>
                       in (if Reward (car_info self1a) < 0
                           then self1a\<lparr>car_info := (car_info self1a)\<lparr>Done := True\<rparr>\<rparr>
                           else self1a)
                     else self1)
        in self2
      else self)"

text \<open>A sequence of events \<open>(gpio, level, tick)\<close>, handled in arrival order.\<close>

fun handle_all :: "RacingCar \<Rightarrow> (int \<times> int \<times> int) list \<Rightarrow> RacingCar" where
  "handle_all self [] = self"
| "handle_all self ((gpio, level, tick) # evs) = handle_all (interrupt_handle self gpio level tick) evs"

subsection \<open>The signal scaler in double arithmetic\<close>

text \<open>
  Python's floats are IEEE 754 binary64 numbers, and every operation of \<open>scale_range\<close>
  rounds its exact result to the nearest one, ties to the even significand. This part
  models that arithmetic, for the properties of \<open>scale_range\<close> that rounding decides.

  \<open>round_even\<close> rounds a real to the nearest integer, ties to even. A double is an integer
  multiple of a power of two: of \<open>2 ^ (k - 52)\<close> for a number in the binade
  \<open>[2 ^ k, 2 ^ (k + 1))\<close>, and of \<open>2 ^ -1074\<close> below \<open>2 ^ -1022\<close> (the subnormal numbers).
  \<open>grid_exp x\<close> is that exponent, \<open>rnd x\<close> the real number nearest to \<open>x\<close> on that grid,
  \<open>MAXD\<close> the largest finite double and \<open>min_subnormal\<close> the smallest positive one.
  A result whose rounded magnitude exceeds \<open>MAXD\<close> is an infinity.
\<close>

definition round_even :: "real \<Rightarrow> int" where
  "round_even x =
     (let n = \<lfloor>x\<rfloor>; r = x - of_int n
      in if r < 1 / 2 then n else if 1 / 2 < r then n + 1 else if even n then n else n + 1)"

definition grid_exp :: "real \<Rightarrow> int" where
  "grid_exp x = max (\<lfloor>log 2 \<bar>x\<bar>\<rfloor> - 52) (- 1074)"

definition rnd :: "real \<Rightarrow> real" where
  "rnd x = (if x = 0 then 0 else of_int (round_even (x / 2 powi grid_exp x)) * 2 powi grid_exp x)"

definition MAXD :: real where
  "MAXD = (2 ^ 53 - 1) * 2 ^ 971"

definition min_subnormal :: real where
  "min_subnormal = 2 powi (- 1074)"

definition is_double :: "real \<Rightarrow> bool" where
  "is_double x = (rnd x = x \<and> \<bar>x\<bar> \<le> MAXD)"

text \<open>
  The values of a float: the finite ones, the two infinities and not-a-number. The two
  zeros of IEEE 754 are one value here: they compare equal, and the only operation that
  tells them apart, division by a zero, raises in Python whatever the sign.
\<close>

datatype ieee = Fin real | PInf | NInf | NaN

definition to_ieee :: "real \<Rightarrow> ieee" where
  "to_ieee x = (let r = rnd x in if MAXD < r then PInf else if r < - MAXD then NInf else Fin r)"

fun fneg :: "ieee \<Rightarrow> ieee" where
  "fneg (Fin a) = Fin (- a)"
| "fneg PInf = NInf"
| "fneg NInf = PInf"
| "fneg NaN = NaN"

fun fadd :: "ieee \<Rightarrow> ieee \<Rightarrow> ieee" where
  "fadd (Fin a) (Fin b) = to_ieee (a + b)"
| "fadd NaN _ = NaN"
| "fadd _ NaN = NaN"
| "fadd PInf NInf = NaN"
| "fadd NInf PInf = NaN"
| "fadd PInf _ = PInf"
| "fadd _ PInf = PInf"
| "fadd NInf _ = NInf"
| "fadd _ NInf = NInf"

definition fsub :: "ieee \<Rightarrow> ieee \<Rightarrow> ieee" where
  "fsub a b = fadd a (fneg b)"

fun fmul :: "ieee \<Rightarrow> ieee \<Rightarrow> ieee" where
  "fmul (Fin a) (Fin b) = to_ieee (a * b)"
| "fmul NaN _ = NaN"
| "fmul _ NaN = NaN"
| "fmul (Fin a) i = (if a = 0 then NaN else if 0 < a then i else fneg i)"
| "fmul i (Fin b) = (if b = 0 then NaN else if 0 < b then i else fneg i)"
| "fmul PInf i = i"
| "fmul NInf i = fneg i"

text \<open>
  Python's float division tests the divisor first and raises \<open>ZeroDivisionError\<close> on a
  zero, whatever the dividend.
\<close>

fun fdiv :: "ieee \<Rightarrow> ieee \<Rightarrow> error + ieee" where
  "fdiv a (Fin b) =
     (if b = 0 then Inl ZeroDivisionError
      else (case a of
              Fin a' \<Rightarrow> Inr (to_ieee (a' / b))
            | NaN \<Rightarrow> Inr NaN
            | i \<Rightarrow> Inr (if 0 < b then i else fneg i)))"
| "fdiv NaN _ = Inr NaN"
| "fdiv _ NaN = Inr NaN"
| "fdiv (Fin a) _ = Inr (Fin 0)"
| "fdiv _ _ = Inr NaN"

text \<open>
  \<open>scale_range\<close> on floats, operation by operation in Python's order of evaluation:
  \<^verbatim>\<open>((old_value - old_min) / (old_max - old_min)) * (new_max - new_min) + new_min\<close>
\<close>

definition scale_range_double :: "ieee \<Rightarrow> ieee \<Rightarrow> ieee \<Rightarrow> ieee \<Rightarrow> ieee \<Rightarrow> error + ieee" where
  "scale_range_double old_value old_min old_max new_min new_max =
     (case fdiv (fsub old_value old_min) (fsub old_max old_min) of
        Inl e \<Rightarrow> Inl e
      | Inr q \<Rightarrow> Inr (fadd (fmul q (fsub new_max new_min)) new_min))"

subsection \<open>Two concrete objects\<close>

text \<open>
  The object that \<open>RacingCar(0.6)\<close> constructs (see \<open>init_fresh_car\<close> below), and the same
  object after the left line sensor has fired.
\<close>

definition fresh_car :: RacingCar where
  "fresh_car = \<lparr>car_info = zero_info, motor_limitation = 0.6, encoder_pulse_count = 0,
                 image = [], pwm_calls = [(4, 1500), (17, 1500)]\<rparr>"

definition crashed_car :: RacingCar where
  "crashed_car = interrupt_handle fresh_car LEFT_LINE_SENSOR_PIN RISING_EDGE 0"

section \<open>Properties\<close>

lemmas pins = LEFT_LINE_SENSOR_PIN_def RIGHT_LINE_SENSOR_PIN_def ENCODER_PUL_PIN_def
  ENCODER_ZERO_PIN_def

lemmas levels = RISING_EDGE_def TIMEOUT_def CALLBACK_LEVEL_RISING_def

subsection \<open>Actuation never fails\<close>

lemma scale_range_servo:
  "scale_range v (- 1) 1 lo hi = Inr ((v + 1) / 2 * (hi - lo) + lo)"
  by (simp add: scale_range_def)

lemma update_pwm_calls:
  "update_pwm self a b =
     (self\<lparr>pwm_calls := pwm_calls self @
        [(STEERING_SERVO_PIN, 1500 + 200 * a), (MOTOR_PIN, 1500 + 500 * b)]\<rparr>, Inr ())"
  by (simp add: update_pwm_def scale_range_servo set_servo_pulsewidth_def
      SERVO_RANGE_def MOTOR_RANGE_def algebra_simps)

lemma init_fresh_car: "init 0.6 [] = Inr fresh_car"
  by (simp add: init_def update_pwm_calls fresh_car_def STEERING_SERVO_PIN_def MOTOR_PIN_def)

lemma Done_crashed_car: "Done (car_info crashed_car)"
  by (simp add: crashed_car_def interrupt_handle_def)

subsection \<open>What \<open>step\<close> accepts and what it rejects\<close>

lemma shape2_data: "shape a = [2] \<Longrightarrow> wf_ndarray a \<Longrightarrow> \<exists>x y. data a = [x, y]"
  by (cases "data a"; cases "tl (data a)"; cases "tl (tl (data a))") (auto simp: wf_ndarray_def)

lemma step_accepted:
  assumes "shape a = [2]" "data a = [x, y]" "x \<le> 1" "y \<le> 1"
  shows "step self a f =
    (let st = (if Done (car_info self) then 0 else x);
         mo = (if Done (car_info self) then 0 else y) * motor_limitation self;
         self' = self\<lparr>car_info := (car_info self)\<lparr>Steering_signal := st, Motor_signal := mo\<rparr>,
                      pwm_calls := pwm_calls self @
                        [(STEERING_SERVO_PIN, 1500 + 200 * st), (MOTOR_PIN, 1500 + 500 * mo)],
                      image := f\<rparr>
     in (self', Inr (f, Reward (car_info self), Done (car_info self), car_info self')))"
  using assms by (simp add: step_def amax_def unpack2_def update_pwm_calls Let_def)

lemma step_rejected:
  assumes "shape a \<noteq> [2] \<or> (\<exists>x\<in>set (data a). 1 < x)" "wf_ndarray a"
  shows "\<exists>msg. step self a f = (self, Inl (AssertionError msg))"
proof (cases "shape a = [2]")
  case False
  then show ?thesis by (simp add: step_def)
next
  case True
  with assms obtain x y where d: "data a = [x, y]" using shape2_data by blast
  with assms True have "\<not> max x y \<le> 1" by auto
  with True d show ?thesis by (auto simp: step_def amax_def)
qed

lemma step_error_unchanged: "step self a f = (self', Inl e) \<Longrightarrow> self' = self"
  by (auto simp: step_def update_pwm_calls Let_def split: if_splits sum.splits prod.splits)

lemma step_keeps_Done: "Done (car_info self) \<Longrightarrow> Done (car_info (fst (step self a f)))"
  by (auto simp: step_def update_pwm_calls Let_def split: sum.splits prod.splits)

lemma interrupt_handle_keeps_Done:
  "Done (car_info self) \<Longrightarrow> Done (car_info (interrupt_handle self gpio level tick))"
  by (simp add: interrupt_handle_def Let_def)

subsection \<open>Sequences of events\<close>

lemma handle_all_append: "handle_all self (xs @ ys) = handle_all (handle_all self xs) ys"
  by (induction xs arbitrary: self) auto

lemma rising_edges_count:
  "handle_all self (replicate n (ENCODER_PUL_PIN, RISING_EDGE, tick)) =
     self\<lparr>encoder_pulse_count := encoder_pulse_count self + int n\<rparr>"
  by (induction n arbitrary: self) (simp_all add: interrupt_handle_def pins levels Let_def)

lemma encoder_timeout:
  "interrupt_handle self ENCODER_PUL_PIN TIMEOUT tick =
     self\<lparr>car_info := (car_info self)\<lparr>Car_speed :=
             (real_of_int (encoder_pulse_count self) / 512 * pi * 0.05) / 0.5 * (145 / 35)\<rparr>,
           encoder_pulse_count := 0\<rparr>"
  by (simp add: interrupt_handle_def encoder_speed_def pins levels ENCODER_LINE_def
      TIRE_DIAMETER_def SPEED_UPDATE_INTERVAL_def GEAR_RATIO_def Let_def)

subsection \<open>The termination latch\<close>

text \<open>
  Claim C1, as the code has it. In a state whose \<open>Done\<close> flag is set, a \<open>step\<close> call whose
  action passes the two assertions (shape \<open>(2,)\<close>, largest element at most 1) ignores the
  values of the action: it records steering 0 and throttle 0 and sends the neutral command,
  1500 microseconds on the steering pin and on the motor pin, which is what
  \<open>_update_pwm(0, 0)\<close> sends. A \<open>step\<close> call whose action fails an assertion (wrong
  shape, or an element above 1) raises \<open>AssertionError\<close> and leaves the whole object as it
  was: no servo call is made. The flag stays set after every \<open>step\<close> call, accepted or
  rejected, after every event the handler receives, and after \<open>close\<close>.
\<close>

theorem step_latch_validated:
  assumes "Done (car_info self)"
  shows
   "(shape a = [2] \<and> wf_ndarray a \<and> (\<forall>x\<in>set (data a). x \<le> 1) \<longrightarrow>
       (\<exists>r. step self a f =
              (self\<lparr>car_info := (car_info self)\<lparr>Steering_signal := 0, Motor_signal := 0\<rparr>,
                    pwm_calls := pwm_calls self @ [(STEERING_SERVO_PIN, 1500), (MOTOR_PIN, 1500)],
                    image := f\<rparr>, Inr r) \<and>
            fst (snd (snd r)))) \<and>
    (wf_ndarray a \<and> (shape a \<noteq> [2] \<or> (\<exists>x\<in>set (data a). 1 < x)) \<longrightarrow>
       (\<exists>msg. step self a f = (self, Inl (AssertionError msg)))) \<and>
    pwm_calls (fst (update_pwm self 0 0)) =
      pwm_calls self @ [(STEERING_SERVO_PIN, 1500), (MOTOR_PIN, 1500)] \<and>
    Done (car_info (fst (step self a f))) \<and>
    Done (car_info (interrupt_handle self gpio level tick)) \<and>
    Done (car_info (fst (close self)))"
proof -
  have "\<exists>msg. step self a f = (self, Inl (AssertionError msg))"
    if "wf_ndarray a" "shape a \<noteq> [2] \<or> (\<exists>x\<in>set (data a). 1 < x)"
    using step_rejected [OF that(2,1)] .
  moreover
  have "\<exists>r. step self a f =
              (self\<lparr>car_info := (car_info self)\<lparr>Steering_signal := 0, Motor_signal := 0\<rparr>,
                    pwm_calls := pwm_calls self @ [(STEERING_SERVO_PIN, 1500), (MOTOR_PIN, 1500)],
                    image := f\<rparr>, Inr r) \<and> fst (snd (snd r))"
    if v: "shape a = [2]" "wf_ndarray a" "\<forall>x\<in>set (data a). x \<le> 1"
  proof -
    from v obtain x y where d: "data a = [x, y]" using shape2_data by blast
    with v have "x \<le> 1" "y \<le> 1" by auto
    from step_accepted [OF v(1) d this] assms show ?thesis by (simp add: Let_def)
  qed
  moreover have "Done (car_info (fst (step self a f)))"
    using assms by (rule step_keeps_Done)
  moreover have "Done (car_info (interrupt_handle self gpio level tick))"
    using assms by (rule interrupt_handle_keeps_Done)
  moreover have "Done (car_info (fst (close self)))"
    using assms by (simp add: close_def update_pwm_calls)
  ultimately show ?thesis by (simp add: update_pwm_calls)
qed

theorem step_latch_validated_witness:
  "Done (car_info crashed_car) \<and>
   shape (NDArray [2] [1, 1]) = [2] \<and> wf_ndarray (NDArray [2] [1, 1]) \<and>
   data (NDArray [2] [1, 1]) = [1, 1] \<and> (1::real) \<le> 1 \<and>
   (\<exists>r. step crashed_car (NDArray [2] [1, 1]) [7] =
          (crashed_car\<lparr>car_info := (car_info crashed_car)\<lparr>Steering_signal := 0, Motor_signal := 0\<rparr>,
                pwm_calls := pwm_calls crashed_car @ [(STEERING_SERVO_PIN, 1500), (MOTOR_PIN, 1500)],
                image := [7]\<rparr>, Inr r) \<and>
        fst (snd (snd r))) \<and>
   Done (car_info (interrupt_handle crashed_car ENCODER_ZERO_PIN RISING_EDGE 0)) \<and>
   wf_ndarray (NDArray [2] [1.5, 0]) \<and> (1::real) < 1.5 \<and>
   (\<exists>msg. step crashed_car (NDArray [2] [1.5, 0]) [] = (crashed_car, Inl (AssertionError msg))) \<and>
   wf_ndarray (NDArray [1] [0.5]) \<and> shape (NDArray [1] [0.5]) \<noteq> [2] \<and>
   (\<exists>msg. step crashed_car (NDArray [1] [0.5]) [] = (crashed_car, Inl (AssertionError msg)))"
  using step_latch_validated [OF Done_crashed_car, of "NDArray [2] [1, 1]" "[7]"
      ENCODER_ZERO_PIN RISING_EDGE 0]
    step_latch_validated [OF Done_crashed_car, of "NDArray [2] [1.5, 0]" "[]"]
    step_latch_validated [OF Done_crashed_car, of "NDArray [1] [0.5]" "[]"]
  by (simp add: Done_crashed_car wf_ndarray_def)

text \<open>
  A \<open>step\<close> call in a terminated state does not send the neutral command whatever the
  action: with the action \<open>[1.5, 0]\<close>, or the one-element action \<open>[0.5]\<close>, the assertions
  fail first, the call raises, and no servo call is made.
\<close>

theorem step_latch_counterexample:
  "Done (car_info crashed_car) \<and>
   wf_ndarray (NDArray [2] [1.5, 0]) \<and>
   step crashed_car (NDArray [2] [1.5, 0]) [] =
     (crashed_car, Inl (AssertionError ''Incorrect input value.'')) \<and>
   pwm_calls (fst (step crashed_car (NDArray [2] [1.5, 0]) [])) = pwm_calls crashed_car \<and>
   wf_ndarray (NDArray [1] [0.5]) \<and>
   step crashed_car (NDArray [1] [0.5]) [] =
     (crashed_car, Inl (AssertionError ''Incorrect input shape.'')) \<and>
   pwm_calls (fst (step crashed_car (NDArray [1] [0.5]) [])) = pwm_calls crashed_car"
  by (simp add: Done_crashed_car step_def amax_def wf_ndarray_def)

subsection \<open>Validation of the action\<close>

text \<open>
  Claim C2, at the input where the code departs from it. The action \<open>[-5, 0]\<close> has a
  component of magnitude 5, yet \<open>step\<close> on the freshly constructed object raises nothing:
  it records steering -5, sends 500 microseconds to the steering pin, and returns.
  (The lemmas \<open>step_rejected\<close> and \<open>step_error_unchanged\<close> above cover the actions that
  are rejected: a wrong shape or an element above 1 raises and leaves the object as it
  was.)
\<close>

theorem step_no_lower_bound:
  "wf_ndarray (NDArray [2] [- 5, 0]) \<and>
   step fresh_car (NDArray [2] [- 5, 0]) [] =
     (fresh_car\<lparr>car_info := zero_info\<lparr>Steering_signal := - 5\<rparr>,
                 pwm_calls := [(4, 1500), (17, 1500), (4, 500), (17, 1500)]\<rparr>,
      Inr ([], 0, False, zero_info\<lparr>Steering_signal := - 5\<rparr>))"
  by (simp add: step_def amax_def unpack2_def update_pwm_calls fresh_car_def zero_info_def
      wf_ndarray_def STEERING_SERVO_PIN_def MOTOR_PIN_def)



subsection \<open>The event handler\<close>

text \<open>
  Claim C3. A timeout on the encoder pin with \<open>n\<close> pulses counted stores the speed
  \<open>(n / 512 * pi * 0.05) / 0.5 * (145 / 35)\<close>, sets the pulse counter to 0 and changes
  nothing else; 0.5 is \<open>SPEED_UPDATE_INTERVAL / 1000\<close>. Starting from a counter of 0, 512
  rising edges followed by a timeout store \<open>(512 / 512 * pi * 0.05) / 0.5 * (145 / 35)\<close>
  and leave the counter at 0.
\<close>

theorem encoder_timeout_speed:
  "interrupt_handle self ENCODER_PUL_PIN TIMEOUT tick =
     self\<lparr>car_info := (car_info self)\<lparr>Car_speed :=
             (real_of_int (encoder_pulse_count self) / 512 * pi * 0.05) / 0.5 * (145 / 35)\<rparr>,
           encoder_pulse_count := 0\<rparr> \<and>
   ENCODER_LINE = 512 \<and> TIRE_DIAMETER = 0.05 \<and> GEAR_RATIO = 145 / 35 \<and>
   SPEED_UPDATE_INTERVAL / 1000 = 0.5 \<and>
   (encoder_pulse_count self = 0 \<longrightarrow>
      Car_speed (car_info (handle_all self
         (replicate 512 (ENCODER_PUL_PIN, RISING_EDGE, tick) @ [(ENCODER_PUL_PIN, TIMEOUT, tick')]))) =
        (512 / 512 * pi * 0.05) / 0.5 * (145 / 35) \<and>
      encoder_pulse_count (handle_all self
         (replicate 512 (ENCODER_PUL_PIN, RISING_EDGE, tick) @ [(ENCODER_PUL_PIN, TIMEOUT, tick')])) = 0)"
  by (simp add: encoder_timeout handle_all_append rising_edges_count ENCODER_LINE_def
      TIRE_DIAMETER_def SPEED_UPDATE_INTERVAL_def GEAR_RATIO_def)

theorem encoder_timeout_speed_witness:
  "encoder_pulse_count fresh_car = 0 \<and>
   Car_speed (car_info (handle_all fresh_car
         (replicate 512 (ENCODER_PUL_PIN, RISING_EDGE, 0) @ [(ENCODER_PUL_PIN, TIMEOUT, 1)]))) =
        (512 / 512 * pi * 0.05) / 0.5 * (145 / 35) \<and>
   encoder_pulse_count (handle_all fresh_car
         (replicate 512 (ENCODER_PUL_PIN, RISING_EDGE, 0) @ [(ENCODER_PUL_PIN, TIMEOUT, 1)])) = 0"
proof -
  have h: "encoder_pulse_count fresh_car = 0" by (simp add: fresh_car_def)
  from encoder_timeout_speed [where self = fresh_car and tick = 0 and tick' = 1] h
  show ?thesis by blast
qed

text \<open>
  Claim C4, at the event where the code departs from it. The callbacks are registered for
  rising edges, and on a rising edge of the lap-marker pin the library calls the handler
  with level 1. The handler compares the level with \<open>pigpio.RISING_EDGE\<close>, which is 0, so
  that call changes nothing: the reward does not grow by 5, and a rising edge followed by
  a timeout changes the reward by -1, not by +4. The timeout part is as claimed: a timeout
  subtracts 1 and sets \<open>Done\<close> exactly when the new reward is negative (or \<open>Done\<close> was set
  already); from the fresh object, the first of three timeouts sets \<open>Done\<close> with reward
  -1, and after the third the reward is -3 with \<open>Done\<close> still set.
\<close>

theorem lap_marker_rising_edge_ignored:
  "interrupt_handle self ENCODER_ZERO_PIN CALLBACK_LEVEL_RISING tick = self \<and>
   Reward (car_info (interrupt_handle
       (interrupt_handle self ENCODER_ZERO_PIN CALLBACK_LEVEL_RISING t1)
       ENCODER_ZERO_PIN TIMEOUT t2)) = Reward (car_info self) - 1 \<and>
   interrupt_handle self ENCODER_ZERO_PIN TIMEOUT tick =
     self\<lparr>car_info := (car_info self)\<lparr>Reward := Reward (car_info self) - 1,
             Done := Done (car_info self) \<or> Reward (car_info self) - 1 < 0\<rparr>\<rparr> \<and>
   Reward (car_info fresh_car) = 0 \<and>
   Reward (car_info (interrupt_handle fresh_car ENCODER_ZERO_PIN TIMEOUT t1)) = - 1 \<and>
   Done (car_info (interrupt_handle fresh_car ENCODER_ZERO_PIN TIMEOUT t1)) \<and>
   Reward (car_info (interrupt_handle (interrupt_handle
       (interrupt_handle fresh_car ENCODER_ZERO_PIN TIMEOUT t1)
       ENCODER_ZERO_PIN TIMEOUT t2) ENCODER_ZERO_PIN TIMEOUT t3)) = - 3 \<and>
   Done (car_info (interrupt_handle (interrupt_handle
       (interrupt_handle fresh_car ENCODER_ZERO_PIN TIMEOUT t1)
       ENCODER_ZERO_PIN TIMEOUT t2) ENCODER_ZERO_PIN TIMEOUT t3))"
  by (simp add: interrupt_handle_def pins levels Let_def fresh_car_def zero_info_def)

text \<open>
  What the handler does with an event whose level equals \<open>pigpio.RISING_EDGE\<close>: it adds 5
  to the reward.
\<close>

lemma lap_marker_level_zero:
  "interrupt_handle self ENCODER_ZERO_PIN RISING_EDGE tick =
     self\<lparr>car_info := (car_info self)\<lparr>Reward := Reward (car_info self) + 5\<rparr>\<rparr>"
  by (simp add: interrupt_handle_def pins levels Let_def)

text \<open>
  Claim C9, as the code has it. An event on a pin that is none of the four the handler
  tests for leaves the whole object as it was, whatever the level. So does an event on
  the encoder pin or the lap-marker pin whose level is none of \<open>pigpio.RISING_EDGE\<close>,
  \<open>pigpio.TIMEOUT\<close> and the level 1 of a rising edge. On the two line-sensor pins the
  handler does not look at the level: every event there sets \<open>Done\<close> and changes
  nothing else. The handler has no raising path, so it is a total function on objects.
\<close>

theorem spurious_event_noop:
  "(gpio \<noteq> LEFT_LINE_SENSOR_PIN \<and> gpio \<noteq> RIGHT_LINE_SENSOR_PIN \<and>
    gpio \<noteq> ENCODER_PUL_PIN \<and> gpio \<noteq> ENCODER_ZERO_PIN \<longrightarrow>
      interrupt_handle self gpio level tick = self) \<and>
   ((gpio = ENCODER_PUL_PIN \<or> gpio = ENCODER_ZERO_PIN) \<and>
    level \<noteq> RISING_EDGE \<and> level \<noteq> CALLBACK_LEVEL_RISING \<and> level \<noteq> TIMEOUT \<longrightarrow>
      interrupt_handle self gpio level tick = self) \<and>
   (gpio = LEFT_LINE_SENSOR_PIN \<or> gpio = RIGHT_LINE_SENSOR_PIN \<longrightarrow>
      interrupt_handle self gpio level tick = self\<lparr>car_info := (car_info self)\<lparr>Done := True\<rparr>\<rparr>)"
  by (auto simp: interrupt_handle_def pins levels Let_def)

theorem spurious_event_noop_witness:
  "(5::int) \<noteq> LEFT_LINE_SENSOR_PIN \<and> 5 \<noteq> RIGHT_LINE_SENSOR_PIN \<and>
   5 \<noteq> ENCODER_PUL_PIN \<and> 5 \<noteq> ENCODER_ZERO_PIN \<and>
   interrupt_handle fresh_car 5 TIMEOUT 0 = fresh_car \<and>
   (7::int) \<noteq> RISING_EDGE \<and> 7 \<noteq> CALLBACK_LEVEL_RISING \<and> 7 \<noteq> TIMEOUT \<and>
   interrupt_handle fresh_car ENCODER_PUL_PIN 7 0 = fresh_car \<and>
   interrupt_handle fresh_car ENCODER_ZERO_PIN 7 0 = fresh_car \<and>
   interrupt_handle fresh_car RIGHT_LINE_SENSOR_PIN 7 0 =
     fresh_car\<lparr>car_info := (car_info fresh_car)\<lparr>Done := True\<rparr>\<rparr>"
  using spurious_event_noop [of 5 fresh_car TIMEOUT 0]
    spurious_event_noop [of ENCODER_PUL_PIN fresh_car 7 0]
    spurious_event_noop [of ENCODER_ZERO_PIN fresh_car 7 0]
    spurious_event_noop [of RIGHT_LINE_SENSOR_PIN fresh_car 7 0]
  by (simp add: pins levels)

text \<open>
  On a line-sensor pin, an event that is not a rising edge is not ignored: a timeout
  there, or an event with any other level, ends the episode.
\<close>

theorem spurious_event_counterexample:
  "\<not> Done (car_info fresh_car) \<and>
   Done (car_info (interrupt_handle fresh_car LEFT_LINE_SENSOR_PIN TIMEOUT 0)) \<and>
   Done (car_info (interrupt_handle fresh_car RIGHT_LINE_SENSOR_PIN TIMEOUT 0)) \<and>
   interrupt_handle fresh_car LEFT_LINE_SENSOR_PIN TIMEOUT 0 \<noteq> fresh_car \<and>
   interrupt_handle fresh_car RIGHT_LINE_SENSOR_PIN 7 0 \<noteq> fresh_car"
proof -
  have n: "\<not> Done (car_info fresh_car)" by (simp add: fresh_car_def zero_info_def)
  have d: "Done (car_info (interrupt_handle fresh_car gpio level 0))"
    if "gpio = LEFT_LINE_SENSOR_PIN \<or> gpio = RIGHT_LINE_SENSOR_PIN" for gpio level
    using that by (auto simp: interrupt_handle_def)
  from n d [of LEFT_LINE_SENSOR_PIN TIMEOUT] d [of RIGHT_LINE_SENSOR_PIN TIMEOUT]
    d [of RIGHT_LINE_SENSOR_PIN 7]
  show ?thesis by auto
qed

subsection \<open>Reset\<close>

text \<open>
  Claim C5. From any object, \<open>reset\<close> returns normally. It sends the neutral command (the
  two servo calls of \<open>_update_pwm(0, 0)\<close>: 1500 microseconds on each pin), stores the
  captured frame, replaces the dictionary by the one with steering 0, motor 0, reward 0,
  speed 0 and \<open>Done\<close> false, and returns the frame, reward 0, \<open>Done\<close> false and that
  dictionary.
\<close>

theorem reset_postcondition:
  "reset self captured =
     (self\<lparr>pwm_calls := pwm_calls self @ [(STEERING_SERVO_PIN, 1500), (MOTOR_PIN, 1500)],
           image := captured,
           car_info := \<lparr>Steering_signal = 0, Motor_signal = 0, Reward = 0, Car_speed = 0,
                         Done = False\<rparr>\<rparr>,
      Inr (captured, 0, False,
           \<lparr>Steering_signal = 0, Motor_signal = 0, Reward = 0, Car_speed = 0, Done = False\<rparr>)) \<and>
   pwm_calls (fst (reset self captured)) = pwm_calls (fst (update_pwm self 0 0))"
  by (simp add: reset_def update_pwm_calls zero_info_def)

text \<open>
  Claim C6. \<open>reset\<close> leaves the pulse counter as it was, so a timeout on the encoder pin
  right after a reset computes the speed from the pulses counted before the reset.
  \<open>step\<close> and \<open>close\<close> leave the counter alone as well, every event other than a timeout
  on the encoder pin leaves it or raises it, and that timeout sets it to 0.
\<close>

theorem reset_keeps_pulse_count:
  "encoder_pulse_count (fst (reset self captured)) = encoder_pulse_count self \<and>
   Car_speed (car_info (interrupt_handle (fst (reset self captured)) ENCODER_PUL_PIN TIMEOUT tick)) =
     (real_of_int (encoder_pulse_count self) / 512 * pi * 0.05) / 0.5 * (145 / 35) \<and>
   encoder_pulse_count (fst (step self a f)) = encoder_pulse_count self \<and>
   encoder_pulse_count (fst (close self)) = encoder_pulse_count self \<and>
   (\<not> (gpio = ENCODER_PUL_PIN \<and> level = TIMEOUT) \<longrightarrow>
      encoder_pulse_count self \<le> encoder_pulse_count (interrupt_handle self gpio level tick)) \<and>
   encoder_pulse_count (interrupt_handle self ENCODER_PUL_PIN TIMEOUT tick) = 0"
proof -
  have "encoder_pulse_count (fst (step self a f)) = encoder_pulse_count self"
    by (auto simp: step_def update_pwm_calls Let_def split: sum.splits prod.splits)
  then show ?thesis
    by (simp add: reset_def close_def update_pwm_calls interrupt_handle_def encoder_speed_def
        pins levels ENCODER_LINE_def TIRE_DIAMETER_def SPEED_UPDATE_INTERVAL_def GEAR_RATIO_def
        Let_def)
qed

theorem reset_keeps_pulse_count_witness:
  "\<not> (ENCODER_PUL_PIN = ENCODER_PUL_PIN \<and> RISING_EDGE = TIMEOUT) \<and>
   encoder_pulse_count (interrupt_handle fresh_car ENCODER_PUL_PIN RISING_EDGE 0) = 1 \<and>
   encoder_pulse_count fresh_car
     \<le> encoder_pulse_count (interrupt_handle fresh_car ENCODER_PUL_PIN RISING_EDGE 0) \<and>
   encoder_pulse_count (fst (reset (interrupt_handle fresh_car ENCODER_PUL_PIN RISING_EDGE 0) [])) = 1 \<and>
   Car_speed (car_info (interrupt_handle
       (fst (reset (interrupt_handle fresh_car ENCODER_PUL_PIN RISING_EDGE 0) []))
       ENCODER_PUL_PIN TIMEOUT 1)) = (1 / 512 * pi * 0.05) / 0.5 * (145 / 35)"
proof -
  have c: "encoder_pulse_count (interrupt_handle fresh_car ENCODER_PUL_PIN RISING_EDGE 0) = 1"
    by (simp add: interrupt_handle_def fresh_car_def pins levels)
  have l: "\<not> (ENCODER_PUL_PIN = ENCODER_PUL_PIN \<and> RISING_EDGE = TIMEOUT)" by (simp add: levels)
  from reset_keeps_pulse_count [where self = "interrupt_handle fresh_car ENCODER_PUL_PIN RISING_EDGE 0"
        and captured = "[]" and tick = 1]
    reset_keeps_pulse_count [where self = fresh_car and gpio = ENCODER_PUL_PIN
        and level = RISING_EDGE and tick = 0] c l
  show ?thesis by simp
qed

subsection \<open>Actuation encoding\<close>

text \<open>
  Claim C8. With \<open>SERVO_RANGE = 200\<close> and \<open>MOTOR_RANGE = 500\<close>, \<open>_update_pwm\<close> returns
  normally and makes exactly two servo calls, first the steering one on pin 4, then the
  motor one on pin 17. Whatever the throttle, steering -1, 0, 1 gives 1300, 1500, 1700
  microseconds on pin 4; whatever the steering, throttle -1, 0, 1 gives 1000, 1500, 2000
  microseconds on pin 17. (The other call of each pair carries the pulse of the other
  signal, \<open>1500 + 500 * m\<close> or \<open>1500 + 200 * s\<close>.) At these six commands every intermediate
  value is a small integer or a half, so doubles compute the same
  (\<open>servo_ranges_exact\<close> below).
\<close>

theorem update_pwm_encoding:
  "SERVO_RANGE = 200 \<and> MOTOR_RANGE = 500 \<and> STEERING_SERVO_PIN = 4 \<and> MOTOR_PIN = 17 \<and>
   update_pwm self (- 1) m =
     (self\<lparr>pwm_calls := pwm_calls self @ [(4, 1300), (17, 1500 + 500 * m)]\<rparr>, Inr ()) \<and>
   update_pwm self 0 m =
     (self\<lparr>pwm_calls := pwm_calls self @ [(4, 1500), (17, 1500 + 500 * m)]\<rparr>, Inr ()) \<and>
   update_pwm self 1 m =
     (self\<lparr>pwm_calls := pwm_calls self @ [(4, 1700), (17, 1500 + 500 * m)]\<rparr>, Inr ()) \<and>
   update_pwm self s (- 1) =
     (self\<lparr>pwm_calls := pwm_calls self @ [(4, 1500 + 200 * s), (17, 1000)]\<rparr>, Inr ()) \<and>
   update_pwm self s 0 =
     (self\<lparr>pwm_calls := pwm_calls self @ [(4, 1500 + 200 * s), (17, 1500)]\<rparr>, Inr ()) \<and>
   update_pwm self s 1 =
     (self\<lparr>pwm_calls := pwm_calls self @ [(4, 1500 + 200 * s), (17, 2000)]\<rparr>, Inr ())"
  by (simp add: update_pwm_calls STEERING_SERVO_PIN_def MOTOR_PIN_def
      SERVO_RANGE_def MOTOR_RANGE_def)

subsection \<open>Rounding to the nearest double\<close>

lemma round_even_of_int [simp]: "round_even (of_int n) = n"
  by (simp add: round_even_def)

lemma round_even_bounds: "x - 1 / 2 \<le> of_int (round_even x)" "of_int (round_even x) \<le> x + 1 / 2"
  unfolding round_even_def Let_def by (auto; linarith)+

lemma round_even_mono: assumes "x \<le> y" shows "round_even x \<le> round_even y"
proof (cases "\<lfloor>x\<rfloor> = \<lfloor>y\<rfloor>")
  case True
  with assms show ?thesis unfolding round_even_def Let_def by auto
next
  case False
  with assms have l: "\<lfloor>x\<rfloor> + 1 \<le> \<lfloor>y\<rfloor>" using floor_mono [OF assms] by linarith
  have "round_even x \<le> \<lfloor>x\<rfloor> + 1" unfolding round_even_def Let_def by auto
  moreover have "\<lfloor>y\<rfloor> \<le> round_even y" unfolding round_even_def Let_def by auto
  ultimately show ?thesis using l by linarith
qed

lemma round_even_minus: "round_even (- x) = - round_even x"
proof (cases "x \<in> \<int>")
  case True
  then obtain n where "x = of_int n" by (auto elim: Ints_cases)
  then show ?thesis using round_even_of_int [of "- n"] by simp
next
  case False
  then have "x \<noteq> of_int \<lfloor>x\<rfloor>" by (metis Ints_of_int)
  then have f: "\<lfloor>- x\<rfloor> = - \<lfloor>x\<rfloor> - 1"
    by (simp add: floor_minus ceiling_altdef)
  have r: "x - of_int \<lfloor>x\<rfloor> < 1" "0 \<le> x - of_int \<lfloor>x\<rfloor>" by linarith+
  show ?thesis unfolding round_even_def Let_def f using r by auto
qed

lemma round_even_ge: "of_int a \<le> x \<Longrightarrow> a \<le> round_even x"
  using round_even_mono [of "of_int a" x] by simp

lemma round_even_le: "x \<le> of_int b \<Longrightarrow> round_even x \<le> b"
  using round_even_mono [of x "of_int b"] by simp

lemma rnd_minus: "rnd (- x) = - rnd x"
  by (simp add: rnd_def grid_exp_def round_even_minus)

lemma two_powi_pos [simp]: "0 < (2::real) powi k"
  by (simp add: zero_less_power_int)

lemma two_powi_of_int: "0 \<le> k \<Longrightarrow> (2::real) powi k = of_int (2 ^ nat k)"
  by (simp add: power_int_nonneg_exp)

lemma two_powi_mono: "m \<le> n \<Longrightarrow> (2::real) powi m \<le> 2 powi n"
  by (simp add: power_int_increasing)

lemma two_powi_diff: "(2::real) powi (m - n) = 2 powi m / 2 powi n"
  by (simp add: power_int_diff)

lemma round_even_small: assumes "0 \<le> q" "q < 1 / 2" shows "round_even q = 0"
proof -
  have "\<lfloor>q\<rfloor> = 0" using assms by (simp add: floor_eq_iff)
  with assms show ?thesis by (simp add: round_even_def)
qed

lemma binade:
  assumes "0 < x"
  shows "2 powi \<lfloor>log 2 x\<rfloor> \<le> x" "x < 2 powi (\<lfloor>log 2 x\<rfloor> + 1)"
proof -
  have "2 powr \<lfloor>log 2 x\<rfloor> \<le> x \<and> x < 2 powr (\<lfloor>log 2 x\<rfloor> + 1)"
    using floor_log_eq_powr_iff [of x 2 "\<lfloor>log 2 x\<rfloor>"] assms by simp
  moreover have "(2::real) powr real_of_int k = 2 powi k" for k
    by (simp add: powr_real_of_int')
  ultimately show "2 powi \<lfloor>log 2 x\<rfloor> \<le> x" "x < 2 powi (\<lfloor>log 2 x\<rfloor> + 1)"
    by (metis, metis of_int_1 of_int_add)
qed

lemma floor_log_eqI:
  assumes "0 < x" "2 powi k \<le> x" "x < 2 powi (k + 1)"
  shows "\<lfloor>log 2 x\<rfloor> = k"
proof -
  have "(2::real) powr real_of_int j = 2 powi j" for j
    by (simp add: powr_real_of_int')
  then have "2 powr k \<le> x \<and> x < 2 powr (k + 1)"
    using assms by (metis of_int_1 of_int_add)
  then show ?thesis using floor_log_eq_powr_iff [of x 2 k] assms by simp
qed

lemma rnd_pos_eq: "0 < x \<Longrightarrow>
  rnd x = of_int (round_even (x / 2 powi max (\<lfloor>log 2 x\<rfloor> - 52) (- 1074))) * 2 powi max (\<lfloor>log 2 x\<rfloor> - 52) (- 1074)"
  by (simp add: rnd_def grid_exp_def)

lemma rnd_nonneg: assumes "0 \<le> x" shows "0 \<le> rnd x"
proof (cases "x = 0")
  case True then show ?thesis by (simp add: rnd_def)
next
  case False
  with assms have "0 \<le> x / 2 powi grid_exp x" by simp
  then have "0 \<le> round_even (x / 2 powi grid_exp x)" using round_even_ge [of 0] by simp
  with False show ?thesis by (simp add: rnd_def)
qed

lemma rnd_upper:
  assumes "0 < x"
  shows "rnd x \<le> 2 powi (\<lfloor>log 2 x\<rfloor> + 1)"
proof -
  define k where "k = \<lfloor>log 2 x\<rfloor>"
  define g where "g = max (k - 52) (- 1074)"
  have x: "x < 2 powi (k + 1)" using binade [OF assms] by (simp add: k_def)
  have r: "rnd x = of_int (round_even (x / 2 powi g)) * 2 powi g"
    using rnd_pos_eq [OF assms] by (simp add: k_def g_def)
  have q: "x / 2 powi g < 2 powi (k + 1 - g)"
    using x by (simp add: two_powi_diff divide_strict_right_mono)
  show ?thesis
  proof (cases "g \<le> k + 1")
    case True
    then have "2 powi (k + 1 - g) = real_of_int (2 ^ nat (k + 1 - g))"
      by (simp add: two_powi_of_int)
    with q have "round_even (x / 2 powi g) \<le> 2 ^ nat (k + 1 - g)"
      using round_even_le [of "x / 2 powi g" "2 ^ nat (k + 1 - g)"] by simp
    then have "real_of_int (round_even (x / 2 powi g)) \<le> real_of_int (2 ^ nat (k + 1 - g))"
      by linarith
    also have "\<dots> = 2 powi (k + 1 - g)" using True by (simp add: two_powi_of_int)
    finally have "real_of_int (round_even (x / 2 powi g)) * 2 powi g \<le> 2 powi (k + 1 - g) * 2 powi g"
      by (simp add: mult_right_mono)
    also have "\<dots> = 2 powi (k + 1)" by (simp add: two_powi_diff)
    finally show ?thesis using r by (simp add: k_def)
  next
    case False
    then have "(2::real) powi (k + 1 - g) \<le> 2 powi (- 1)" by (intro two_powi_mono) simp
    moreover have "(2::real) powi (- 1) = 1 / 2" by (simp add: power_int_minus)
    ultimately have h: "x / 2 powi g < 1 / 2" using q by linarith
    have "0 \<le> x / 2 powi g" using assms by simp
    then have "round_even (x / 2 powi g) = 0" using h by (rule round_even_small)
    with r show ?thesis by simp
  qed
qed

lemma rnd_lower:
  assumes "0 < x" "- 1074 \<le> \<lfloor>log 2 x\<rfloor>"
  shows "2 powi \<lfloor>log 2 x\<rfloor> \<le> rnd x"
proof -
  define k where "k = \<lfloor>log 2 x\<rfloor>"
  define g where "g = max (k - 52) (- 1074)"
  have gk: "g \<le> k" using assms by (simp add: g_def k_def)
  have x: "2 powi k \<le> x" using binade [OF assms(1)] by (simp add: k_def)
  have r: "rnd x = of_int (round_even (x / 2 powi g)) * 2 powi g"
    using rnd_pos_eq [OF assms(1)] by (simp add: k_def g_def)
  have "2 powi (k - g) \<le> x / 2 powi g"
    using x by (simp add: two_powi_diff divide_right_mono)
  moreover have "2 powi (k - g) = real_of_int (2 ^ nat (k - g))"
    using gk by (simp add: two_powi_of_int)
  ultimately have "2 ^ nat (k - g) \<le> round_even (x / 2 powi g)"
    using round_even_ge [of "2 ^ nat (k - g)" "x / 2 powi g"] by simp
  then have "real_of_int (2 ^ nat (k - g)) \<le> real_of_int (round_even (x / 2 powi g))"
    by linarith
  then have "2 powi (k - g) * 2 powi g \<le> real_of_int (round_even (x / 2 powi g)) * 2 powi g"
    using gk by (simp add: two_powi_of_int mult_right_mono)
  moreover have "2 powi (k - g) * 2 powi g = (2::real) powi k" by (simp add: two_powi_diff)
  ultimately have "2 powi k \<le> real_of_int (round_even (x / 2 powi g)) * 2 powi g" by linarith
  with r show ?thesis unfolding k_def by linarith
qed

lemma rnd_mono_pos:
  assumes "0 < x" "x \<le> y"
  shows "rnd x \<le> rnd y"
proof -
  define kx where "kx = \<lfloor>log 2 x\<rfloor>"
  define ky where "ky = \<lfloor>log 2 y\<rfloor>"
  have y: "0 < y" using assms by simp
  have k: "kx \<le> ky" unfolding kx_def ky_def using assms by (intro floor_mono) simp
  show ?thesis
  proof (cases "max (kx - 52) (- 1074) = max (ky - 52) (- 1074)")
    case True
    have "x / 2 powi max (ky - 52) (- 1074) \<le> y / 2 powi max (ky - 52) (- 1074)"
      using assms by (simp add: divide_right_mono)
    then have "round_even (x / 2 powi max (ky - 52) (- 1074)) \<le> round_even (y / 2 powi max (ky - 52) (- 1074))"
      by (rule round_even_mono)
    then have "real_of_int (round_even (x / 2 powi max (ky - 52) (- 1074))) * 2 powi max (ky - 52) (- 1074)
        \<le> real_of_int (round_even (y / 2 powi max (ky - 52) (- 1074))) * 2 powi max (ky - 52) (- 1074)"
      by (simp add: mult_right_mono)
    then show ?thesis
      using rnd_pos_eq [OF assms(1)] rnd_pos_eq [OF y] True by (simp add: kx_def ky_def)
  next
    case False
    with k have "kx + 1 \<le> ky" "- 1074 \<le> ky" by linarith+
    then have "rnd x \<le> 2 powi ky"
      using rnd_upper [OF assms(1)] two_powi_mono [of "kx + 1" ky] by (simp add: kx_def)
    moreover have "2 powi ky \<le> rnd y"
      using rnd_lower [OF y] \<open>- 1074 \<le> ky\<close> by (simp add: ky_def)
    ultimately show ?thesis by simp
  qed
qed

lemma rnd_mono: assumes "x \<le> y" shows "rnd x \<le> rnd y"
proof -
  consider "0 < x" | "x \<le> 0" "0 \<le> y" | "y < 0" by linarith
  then show ?thesis
  proof cases
    case 1
    then show ?thesis using assms by (rule rnd_mono_pos)
  next
    case 2
    have "0 \<le> rnd (- x)" using 2 by (intro rnd_nonneg) simp
    then have "rnd x \<le> 0" by (simp add: rnd_minus)
    then show ?thesis using rnd_nonneg [OF 2(2)] by simp
  next
    case 3
    then have "rnd (- y) \<le> rnd (- x)" using assms by (intro rnd_mono_pos) simp_all
    then show ?thesis by (simp add: rnd_minus)
  qed
qed

lemma two_powi_add: "(2::real) powi (m + n) = 2 powi m * 2 powi n"
  by (simp add: power_int_add)

lemma two_powi_less_imp: "(2::real) powi m < 2 powi n \<Longrightarrow> m < n"
  using two_powi_mono [of n m] by (cases "m < n") simp_all

lemma min_subnormal_pos: "0 < min_subnormal"
  by (simp only: min_subnormal_def two_powi_pos)

lemma two_powi_split: "(2::real) powi e = 2 powi (e + 1074) * min_subnormal"
proof -
  have "(2::real) powi (e + 1074 + - 1074) = 2 powi (e + 1074) * 2 powi (- 1074)"
    by (rule two_powi_add)
  moreover have "e + 1074 + - 1074 = e" by simp
  ultimately show ?thesis by (simp only: min_subnormal_def)
qed

lemma rnd_exact_pos:
  assumes "0 < m" "m < 2 ^ 53" "- 1074 \<le> e"
  shows "rnd (of_int m * 2 powi e) = of_int m * 2 powi e"
proof -
  define z where "z = real_of_int m * 2 powi e"
  define k where "k = \<lfloor>log 2 z\<rfloor>"
  define g where "g = max (k - 52) (- 1074)"
  have z: "0 < z" using assms by (simp add: z_def)
  have "real_of_int m < 2 ^ 53" using assms(2) by (metis of_int_less_numeral_power_cancel_iff)
  then have "z < 2 ^ 53 * 2 powi e" by (simp add: z_def)
  also have "\<dots> = 2 powi (53 + e)" by (simp add: two_powi_add)
  finally have "2 powi k < (2::real) powi (53 + e)" using binade(1) [OF z] by (simp add: k_def)
  then have "k < 53 + e" by (rule two_powi_less_imp)
  with assms have ge: "g \<le> e" by (simp add: g_def)
  have "z / 2 powi g = real_of_int m * 2 powi (e - g)" by (simp add: z_def two_powi_diff)
  also have "\<dots> = real_of_int (m * 2 ^ nat (e - g))" using ge by (simp add: two_powi_of_int)
  finally have "round_even (z / 2 powi g) = m * 2 ^ nat (e - g)" by (simp only: round_even_of_int)
  then have "rnd z = real_of_int (m * 2 ^ nat (e - g)) * 2 powi g"
    using rnd_pos_eq [OF z] by (simp add: k_def g_def)
  also have "\<dots> = real_of_int m * (2 powi (e - g) * 2 powi g)" using ge by (simp add: two_powi_of_int)
  also have "\<dots> = z" by (simp add: z_def two_powi_diff)
  finally show ?thesis by (simp add: z_def)
qed

lemma rnd_exact:
  assumes "\<bar>m\<bar> \<le> 2 ^ 53" "- 1074 \<le> e"
  shows "rnd (of_int m * 2 powi e) = of_int m * 2 powi e"
proof -
  have pos: "rnd (of_int n * 2 powi e) = of_int n * 2 powi e" if "0 < n" "n \<le> 2 ^ 53" for n
  proof (cases "n = 2 ^ 53")
    case True
    have "rnd (of_int (2 ^ 52) * 2 powi (e + 1)) = of_int (2 ^ 52) * 2 powi (e + 1)"
      using assms by (intro rnd_exact_pos) simp_all
    moreover have "real_of_int (2 ^ 52) * 2 powi (e + 1) = real_of_int (2 ^ 53) * 2 powi e"
      by (simp add: two_powi_add)
    ultimately show ?thesis using True by simp
  next
    case False
    with that assms show ?thesis by (intro rnd_exact_pos) simp_all
  qed
  consider "0 < m" | "m = 0" | "m < 0" by linarith
  then show ?thesis
  proof cases
    case 1 then show ?thesis using pos [of m] assms by simp
  next
    case 2 then show ?thesis by (simp add: rnd_def)
  next
    case 3
    then have "rnd (of_int (- m) * 2 powi e) = of_int (- m) * 2 powi e"
      using pos [of "- m"] assms by simp
    then show ?thesis using rnd_minus [of "of_int m * 2 powi e"] by simp
  qed
qed

lemma rnd_form: "\<exists>m e. rnd x = of_int m * 2 powi e \<and> \<bar>m\<bar> \<le> 2 ^ 53 \<and> - 1074 \<le> e"
proof -
  have pos: "\<exists>m e. rnd x = of_int m * 2 powi e \<and> \<bar>m\<bar> \<le> 2 ^ 53 \<and> - 1074 \<le> e" if "0 < x" for x
  proof -
    define k where "k = \<lfloor>log 2 x\<rfloor>"
    define g where "g = max (k - 52) (- 1074)"
    have r: "rnd x = of_int (round_even (x / 2 powi g)) * 2 powi g"
      using rnd_pos_eq [OF that] by (simp add: k_def g_def)
    have "x / 2 powi g < 2 powi (k + 1 - g)"
      using binade(2) [OF that] by (simp add: k_def two_powi_diff divide_strict_right_mono)
    also have "\<dots> \<le> 2 powi 53" by (intro two_powi_mono) (simp add: g_def)
    finally have "x / 2 powi g \<le> real_of_int (2 ^ 53)" by simp
    then have "round_even (x / 2 powi g) \<le> 2 ^ 53" by (rule round_even_le)
    moreover have "0 \<le> round_even (x / 2 powi g)"
      using that by (intro round_even_ge) simp
    moreover have "- 1074 \<le> g" by (simp add: g_def)
    ultimately show ?thesis using r by (intro exI [of _ "round_even (x / 2 powi g)"] exI [of _ g]) simp
  qed
  consider "0 < x" | "x = 0" | "x < 0" by linarith
  then show ?thesis
  proof cases
    case 1 then show ?thesis by (rule pos)
  next
    case 2 then show ?thesis by (intro exI [of _ 0] exI [of _ 0]) (simp add: rnd_def)
  next
    case 3
    then obtain m e where "rnd (- x) = of_int m * 2 powi e" "\<bar>m\<bar> \<le> 2 ^ 53" "- 1074 \<le> e"
      using pos [of "- x"] by auto
    then show ?thesis by (intro exI [of _ "- m"] exI [of _ e]) (simp add: rnd_minus)
  qed
qed

lemma rnd_idem [simp]: "rnd (rnd x) = rnd x"
  using rnd_form [of x] rnd_exact by metis

lemma rnd_zero [simp]: "rnd 0 = 0"
  by (simp add: rnd_def)

lemma rnd_one [simp]: "rnd 1 = 1"
  using rnd_exact [of 1 0] by simp

lemma rnd_least: "rnd min_subnormal = min_subnormal"
  using rnd_exact [of 1 "- 1074"] by (simp only: min_subnormal_def of_int_1 mult_1) simp

lemma fixed_on_grid: assumes "rnd x = x" shows "\<exists>n. x = real_of_int n * min_subnormal"
proof -
  obtain m e where m: "rnd x = of_int m * 2 powi e" "- 1074 \<le> e" using rnd_form [of x] by auto
  have "real_of_int m * 2 powi e = real_of_int m * (2 powi (e + 1074) * min_subnormal)"
    by (simp only: two_powi_split [of e])
  also have "2 powi (e + 1074) = real_of_int (2 ^ nat (e + 1074))"
    using m(2) by (intro two_powi_of_int) simp
  finally have "x = real_of_int (m * 2 ^ nat (e + 1074)) * min_subnormal"
    using m(1) assms by simp
  then show ?thesis ..
qed

lemma rnd_diff_pos:
  assumes "rnd a = a" "rnd b = b" "a < b"
  shows "0 < rnd (b - a)"
proof -
  obtain na nb where n: "a = real_of_int na * min_subnormal" "b = real_of_int nb * min_subnormal"
    using fixed_on_grid assms by blast
  with assms(3) have "real_of_int na < real_of_int nb"
    using min_subnormal_pos by (simp add: mult_less_cancel_right)
  then have "1 \<le> real_of_int (nb - na)" by simp
  then have "1 * min_subnormal \<le> real_of_int (nb - na) * min_subnormal"
    using min_subnormal_pos by (intro mult_right_mono) simp_all
  also have "\<dots> = b - a" by (simp add: n algebra_simps)
  finally have "rnd min_subnormal \<le> rnd (b - a)" by (intro rnd_mono) simp
  then show ?thesis using rnd_least min_subnormal_pos by linarith
qed

subsection \<open>Float operations\<close>

lemma MAXD_pos: "0 < MAXD" by (simp add: MAXD_def)

lemma to_ieee_Fin_iff: "to_ieee x = Fin r \<longleftrightarrow> r = rnd x \<and> \<bar>rnd x\<bar> \<le> MAXD"
  by (auto simp: to_ieee_def Let_def)

lemma to_ieee_not_NaN [simp]: "to_ieee x \<noteq> NaN"
  by (simp add: to_ieee_def Let_def)

lemma to_ieee_double: "is_double x \<Longrightarrow> to_ieee x = Fin x"
  by (simp add: to_ieee_Fin_iff is_double_def)

lemma to_ieee_zero [simp]: "to_ieee 0 = Fin 0"
  using MAXD_pos by (simp add: to_ieee_Fin_iff)

lemma to_ieee_one [simp]: "to_ieee 1 = Fin 1"
  by (simp add: to_ieee_Fin_iff MAXD_def)

lemma fsub_Fin: "fsub (Fin a) (Fin b) = to_ieee (a - b)"
  by (simp add: fsub_def)

lemma fadd_Fin_iff: "fadd p (Fin c) = Fin a \<longleftrightarrow> (\<exists>p'. p = Fin p' \<and> to_ieee (p' + c) = Fin a)"
  by (cases p) auto

lemma fmul_Fin_iff:
  "fmul q W = Fin p \<longleftrightarrow> (\<exists>q' w. q = Fin q' \<and> W = Fin w \<and> to_ieee (q' * w) = Fin p)"
  by (cases q; cases W) auto

lemma fdiv_Fin_iff:
  "fdiv n D = Inr (Fin q) \<longleftrightarrow>
     (\<exists>n'. n = Fin n' \<and>
        ((\<exists>d. D = Fin d \<and> d \<noteq> 0 \<and> to_ieee (n' / d) = Fin q) \<or> ((D = PInf \<or> D = NInf) \<and> q = 0)))"
  by (cases n; cases D) auto

lemma to_ieee_diff_cases:
  assumes "rnd a = a" "rnd b = b" "a < b"
  shows "(\<exists>d. to_ieee (b - a) = Fin d \<and> 0 < d \<and> rnd d = d) \<or> to_ieee (b - a) = PInf"
  using rnd_diff_pos [OF assms] MAXD_pos by (auto simp: to_ieee_def Let_def)

lemma rnd_diff_nonzero:
  assumes "rnd a = a" "rnd b = b" "a \<noteq> b"
  shows "rnd (b - a) \<noteq> 0"
proof (cases "a < b")
  case True
  then show ?thesis using rnd_diff_pos [OF assms(1,2)] by simp
next
  case False
  with assms have "b < a" by simp
  then have "0 < rnd (a - b)" using rnd_diff_pos [OF assms(2,1)] by simp
  moreover have "rnd (b - a) = - rnd (a - b)" using rnd_minus [of "a - b"] by simp
  ultimately show ?thesis by simp
qed

lemma to_ieee_idem: "to_ieee x = Fin r \<Longrightarrow> to_ieee r = Fin r"
  by (auto simp: to_ieee_Fin_iff)

lemma fmul_one: "fmul (Fin 1) (to_ieee x) = to_ieee x"
proof (cases "to_ieee x")
  case (Fin r)
  then show ?thesis using to_ieee_idem [OF Fin] by simp
qed simp_all

lemma fdiv_zero:
  assumes "D \<noteq> Fin 0" "D \<noteq> NaN"
  shows "fdiv (Fin 0) D = Inr (Fin 0)"
  using assms by (cases D) simp_all

lemma scale_at_old_min:
  assumes "is_double old_min" "is_double old_max" "is_double new_min" "old_min \<noteq> old_max"
    and w: "fsub (Fin new_max) (Fin new_min) = Fin w"
  shows "scale_range_double (Fin old_min) (Fin old_min) (Fin old_max) (Fin new_min) (Fin new_max)
           = Inr (Fin new_min)"
proof -
  have "rnd (old_max - old_min) \<noteq> 0"
    using assms by (intro rnd_diff_nonzero) (simp_all add: is_double_def)
  then have "to_ieee (old_max - old_min) \<noteq> Fin 0" by (simp add: to_ieee_Fin_iff)
  then have "fdiv (Fin 0) (fsub (Fin old_max) (Fin old_min)) = Inr (Fin 0)"
    by (intro fdiv_zero) (simp_all add: fsub_Fin)
  then show ?thesis
    using w to_ieee_double [OF assms(3)] by (simp add: scale_range_double_def fsub_Fin)
qed

lemma scale_at_old_max:
  assumes "is_double old_min" "is_double old_max" "old_min \<noteq> old_max"
    and d: "fsub (Fin old_max) (Fin old_min) = Fin d"
  shows "scale_range_double (Fin old_max) (Fin old_min) (Fin old_max) (Fin new_min) (Fin new_max)
           = Inr (fadd (fsub (Fin new_max) (Fin new_min)) (Fin new_min))"
proof -
  have "rnd (old_max - old_min) \<noteq> 0"
    using assms by (intro rnd_diff_nonzero) (simp_all add: is_double_def)
  with d have "d \<noteq> 0" by (auto simp: fsub_Fin to_ieee_Fin_iff)
  then have "fdiv (Fin d) (Fin d) = Inr (Fin 1)" by simp
  then show ?thesis using d by (simp add: scale_range_double_def fsub_Fin fmul_one)
qed

lemma scale_monotone:
  assumes dbl: "is_double old_min" "is_double old_max" "is_double new_min" "is_double new_max"
    and ord: "old_min < old_max" "new_min < new_max" "x \<le> y"
    and rx: "scale_range_double (Fin x) (Fin old_min) (Fin old_max) (Fin new_min) (Fin new_max) = Inr (Fin a)"
    and ry: "scale_range_double (Fin y) (Fin old_min) (Fin old_max) (Fin new_min) (Fin new_max) = Inr (Fin b)"
  shows "a \<le> b"
proof -
  define D where "D = to_ieee (old_max - old_min)"
  define W where "W = to_ieee (new_max - new_min)"
  have Dc: "(\<exists>d. D = Fin d \<and> 0 < d) \<or> D = PInf"
    using to_ieee_diff_cases [of old_min old_max] dbl ord by (auto simp: D_def is_double_def)
  have Wc: "(\<exists>w. W = Fin w \<and> 0 < w) \<or> W = PInf"
    using to_ieee_diff_cases [of new_min new_max] dbl ord by (auto simp: W_def is_double_def)
  have path: "\<exists>q w. fdiv (to_ieee (v - old_min)) D = Inr (Fin q) \<and> W = Fin w \<and> 0 < w \<and>
                 r = rnd (rnd (q * w) + new_min)"
    if "scale_range_double (Fin v) (Fin old_min) (Fin old_max) (Fin new_min) (Fin new_max) = Inr (Fin r)"
    for v r
    using that Wc
    by (auto simp: scale_range_double_def fsub_Fin D_def [symmetric] W_def [symmetric]
        fadd_Fin_iff fmul_Fin_iff to_ieee_Fin_iff split: sum.splits)
  from path [OF rx] obtain qx w where
    qx: "fdiv (to_ieee (x - old_min)) D = Inr (Fin qx)" and w: "W = Fin w" "0 < w"
      and a: "a = rnd (rnd (qx * w) + new_min)" by blast
  from path [OF ry] w obtain qy where
    qy: "fdiv (to_ieee (y - old_min)) D = Inr (Fin qy)"
      and b: "b = rnd (rnd (qy * w) + new_min)" by auto
  have "qx \<le> qy"
  proof -
    from Dc show ?thesis
    proof
      assume "\<exists>d. D = Fin d \<and> 0 < d"
      then obtain d where d: "D = Fin d" "0 < d" by blast
      from qx [unfolded fdiv_Fin_iff] qy [unfolded fdiv_Fin_iff] d
      have "qx = rnd (rnd (x - old_min) / d)" "qy = rnd (rnd (y - old_min) / d)"
        by (auto simp: to_ieee_Fin_iff)
      moreover have "rnd (x - old_min) \<le> rnd (y - old_min)" using ord by (intro rnd_mono) simp
      ultimately show ?thesis using d by (auto intro!: rnd_mono divide_right_mono)
    next
      assume "D = PInf"
      with qx [unfolded fdiv_Fin_iff] qy [unfolded fdiv_Fin_iff] show ?thesis by auto
    qed
  qed
  then have "qx * w \<le> qy * w" using w by (simp add: mult_right_mono)
  then have "rnd (qx * w) + new_min \<le> rnd (qy * w) + new_min" using rnd_mono by simp
  then show ?thesis unfolding a b by (rule rnd_mono)
qed

lemma rnd_eval:
  assumes "0 < x" "2 powi k \<le> x" "x < 2 powi (k + 1)"
  shows "rnd x = of_int (round_even (x / 2 powi max (k - 52) (- 1074))) * 2 powi max (k - 52) (- 1074)"
  using rnd_pos_eq [OF assms(1)] floor_log_eqI [OF assms] by simp

lemma rnd_02: "rnd (2 / 10) = 3602879701896397 / 2 ^ 54"
  using rnd_eval [of "2 / 10" "- 3"] by (simp add: round_even_def)

lemma rnd_09: "rnd (9 / 10) = 8106479329266893 / 2 ^ 53"
  using rnd_eval [of "9 / 10" "- 1"] by (simp add: round_even_def)

lemma rnd_07: "rnd (8106479329266893 / 2 ^ 53 - 3602879701896397 / 2 ^ 54) = 3152519739159347 / 2 ^ 52"
  using rnd_eval [of "8106479329266893 / 2 ^ 53 - 3602879701896397 / 2 ^ 54" "- 1"]
  by (simp add: round_even_def)

lemma rnd_07_02: "rnd (3152519739159347 / 2 ^ 52 + 3602879701896397 / 2 ^ 54) = 2026619832316723 / 2 ^ 51"
  using rnd_eval [of "3152519739159347 / 2 ^ 52 + 3602879701896397 / 2 ^ 54" "- 1"]
  by (simp add: round_even_def)

lemma rnd_plateau: "rnd (400 / 2 ^ 60 + 1300) = 1300"
  using rnd_eval [of "400 / 2 ^ 60 + 1300" 10] by (simp add: round_even_def)

lemma rnd_dyadic: "\<bar>m\<bar> \<le> 2 ^ 53 \<Longrightarrow> n \<le> 1074 \<Longrightarrow> rnd (of_int m / 2 ^ n) = of_int m / 2 ^ n"
  using rnd_exact [of m "- int n"] by (simp add: power_int_minus field_simps)

lemma rnd_int: "\<bar>m\<bar> \<le> 2 ^ 53 \<Longrightarrow> rnd (of_int m) = of_int m"
  using rnd_dyadic [of m 0] by simp

lemma to_ieee_fixed: "rnd x = x \<Longrightarrow> \<bar>x\<bar> \<le> MAXD \<Longrightarrow> to_ieee x = Fin x"
  by (simp add: to_ieee_Fin_iff)

lemma to_ieee_int: "\<bar>m\<bar> \<le> 2 ^ 53 \<Longrightarrow> to_ieee (of_int m) = Fin (of_int m)"
proof -
  assume m: "\<bar>m\<bar> \<le> 2 ^ 53"
  then have "\<bar>real_of_int m\<bar> \<le> 2 ^ 53" by (metis of_int_abs of_int_le_numeral_power_cancel_iff)
  also have "\<dots> \<le> MAXD" by (simp add: MAXD_def)
  finally show ?thesis using rnd_int [OF m] by (intro to_ieee_fixed) simp_all
qed

lemma scale_returns:
  assumes "is_double old_min" "is_double old_max" "old_min \<noteq> old_max"
  shows "\<exists>r. scale_range_double v (Fin old_min) (Fin old_max) new_min new_max = Inr r"
proof -
  have "rnd (old_max - old_min) \<noteq> 0"
    using assms by (intro rnd_diff_nonzero) (simp_all add: is_double_def)
  then have "to_ieee (old_max - old_min) \<noteq> Fin 0" by (simp add: to_ieee_Fin_iff)
  then have "\<exists>q. fdiv n (to_ieee (old_max - old_min)) = Inr q" for n
    by (cases n; cases "to_ieee (old_max - old_min)") simp_all
  then obtain q where "fdiv (fsub v (Fin old_min)) (to_ieee (old_max - old_min)) = Inr q" by blast
  then show ?thesis by (simp add: scale_range_double_def fsub_Fin)
qed

lemma servo_ranges_exact:
  "scale_range_double (Fin (- 1)) (Fin (- 1)) (Fin 1) (Fin 1300) (Fin 1700) = Inr (Fin 1300) \<and>
   scale_range_double (Fin 0) (Fin (- 1)) (Fin 1) (Fin 1300) (Fin 1700) = Inr (Fin 1500) \<and>
   scale_range_double (Fin 1) (Fin (- 1)) (Fin 1) (Fin 1300) (Fin 1700) = Inr (Fin 1700) \<and>
   scale_range_double (Fin (- 1)) (Fin (- 1)) (Fin 1) (Fin 1000) (Fin 2000) = Inr (Fin 1000) \<and>
   scale_range_double (Fin 0) (Fin (- 1)) (Fin 1) (Fin 1000) (Fin 2000) = Inr (Fin 1500) \<and>
   scale_range_double (Fin 1) (Fin (- 1)) (Fin 1) (Fin 1000) (Fin 2000) = Inr (Fin 2000)"
proof -
  have i: "to_ieee 0 = Fin 0" "to_ieee 1 = Fin 1" "to_ieee 2 = Fin 2" "to_ieee 200 = Fin 200"
    "to_ieee 400 = Fin 400" "to_ieee 500 = Fin 500" "to_ieee 1000 = Fin 1000"
    "to_ieee 1300 = Fin 1300" "to_ieee 1500 = Fin 1500" "to_ieee 1700 = Fin 1700"
    "to_ieee 2000 = Fin 2000"
    using to_ieee_int [of 2] to_ieee_int [of 200] to_ieee_int [of 400] to_ieee_int [of 500]
      to_ieee_int [of 1000] to_ieee_int [of 1300] to_ieee_int [of 1500] to_ieee_int [of 1700]
      to_ieee_int [of 2000]
    by simp_all
  have h: "to_ieee (1 / 2) = Fin (1 / 2)"
    using rnd_dyadic [of 1 1] by (simp add: to_ieee_Fin_iff MAXD_def)
  show ?thesis by (simp add: scale_range_double_def fsub_Fin i h)
qed

subsection \<open>The signal scaler\<close>

text \<open>
  Claim C7, as the code has it, in double arithmetic. For doubles \<open>old_min \<noteq> old_max\<close>,
  \<open>new_min\<close>, \<open>new_max\<close>:
  \<^item> \<open>scale_range\<close> returns (it does not raise) at every value;
  \<^item> at \<open>old_min\<close> it returns \<open>new_min\<close> exactly, provided \<open>new_max - new_min\<close> does not
    overflow;
  \<^item> at \<open>old_max\<close> it returns the rounded sum of the rounded width \<open>new_max - new_min\<close>
    and \<open>new_min\<close>, provided \<open>old_max - old_min\<close> does not overflow; that is \<open>new_max\<close>
    only when the two roundings give it back;
  \<^item> when \<open>old_min < old_max\<close> and \<open>new_min < new_max\<close>, it never decreases: for
    \<open>x \<le> y\<close> with finite results \<open>a\<close> and \<open>b\<close>, \<open>a \<le> b\<close>.
\<close>

theorem scale_range_double_boundary_monotone:
  assumes "is_double old_min" "is_double old_max" "is_double new_min" "is_double new_max"
  shows
   "(old_min \<noteq> old_max \<longrightarrow>
       (\<exists>r. scale_range_double (Fin x) (Fin old_min) (Fin old_max) (Fin new_min) (Fin new_max) = Inr r)) \<and>
    (old_min \<noteq> old_max \<and> fsub (Fin new_max) (Fin new_min) = Fin w \<longrightarrow>
       scale_range_double (Fin old_min) (Fin old_min) (Fin old_max) (Fin new_min) (Fin new_max) =
         Inr (Fin new_min)) \<and>
    (old_min \<noteq> old_max \<and> fsub (Fin old_max) (Fin old_min) = Fin d \<longrightarrow>
       scale_range_double (Fin old_max) (Fin old_min) (Fin old_max) (Fin new_min) (Fin new_max) =
         Inr (fadd (fsub (Fin new_max) (Fin new_min)) (Fin new_min))) \<and>
    (old_min < old_max \<and> new_min < new_max \<and> x \<le> y \<and>
     scale_range_double (Fin x) (Fin old_min) (Fin old_max) (Fin new_min) (Fin new_max) = Inr (Fin a) \<and>
     scale_range_double (Fin y) (Fin old_min) (Fin old_max) (Fin new_min) (Fin new_max) = Inr (Fin b) \<longrightarrow>
       a \<le> b)"
  using scale_returns [OF assms(1,2)] scale_at_old_min [OF assms(1,2,3)]
    scale_at_old_max [OF assms(1,2)] scale_monotone [OF assms]
  by blast

theorem scale_range_double_boundary_monotone_witness:
  "is_double 0 \<and> is_double 1 \<and> is_double 1300 \<and> is_double 1700 \<and> (0::real) < 1 \<and>
   (1300::real) < 1700 \<and> (1 / 4 :: real) \<le> 3 / 4 \<and>
   fsub (Fin 1700) (Fin 1300) = Fin 400 \<and> fsub (Fin 1) (Fin 0) = Fin 1 \<and>
   fadd (Fin 400) (Fin 1300) = Fin 1700 \<and>
   scale_range_double (Fin 0) (Fin 0) (Fin 1) (Fin 1300) (Fin 1700) = Inr (Fin 1300) \<and>
   scale_range_double (Fin 1) (Fin 0) (Fin 1) (Fin 1300) (Fin 1700) = Inr (Fin 1700) \<and>
   scale_range_double (Fin (1 / 4)) (Fin 0) (Fin 1) (Fin 1300) (Fin 1700) = Inr (Fin 1400) \<and>
   scale_range_double (Fin (3 / 4)) (Fin 0) (Fin 1) (Fin 1300) (Fin 1700) = Inr (Fin 1600) \<and>
   (1400::real) \<le> 1600"
proof -
  have i: "to_ieee 0 = Fin 0" "to_ieee 1 = Fin 1" "to_ieee 100 = Fin 100" "to_ieee 300 = Fin 300"
    "to_ieee 400 = Fin 400" "to_ieee 1300 = Fin 1300" "to_ieee 1400 = Fin 1400"
    "to_ieee 1600 = Fin 1600" "to_ieee 1700 = Fin 1700"
    using to_ieee_int [of 100] to_ieee_int [of 300] to_ieee_int [of 400] to_ieee_int [of 1300]
      to_ieee_int [of 1400] to_ieee_int [of 1600] to_ieee_int [of 1700]
    by simp_all
  have q: "to_ieee (1 / 4) = Fin (1 / 4)" "to_ieee (3 / 4) = Fin (3 / 4)"
    using rnd_dyadic [of 1 2] rnd_dyadic [of 3 2] by (simp_all add: to_ieee_Fin_iff MAXD_def)
  have d: "is_double 0" "is_double 1" "is_double 1300" "is_double 1700"
    using i by (simp_all add: is_double_def to_ieee_Fin_iff MAXD_def)
  have s: "fsub (Fin 1700) (Fin 1300) = Fin 400" "fsub (Fin 1) (Fin 0) = Fin 1"
    "fadd (Fin 400) (Fin 1300) = Fin 1700"
    by (simp_all add: fsub_Fin i)
  have x: "scale_range_double (Fin (1 / 4)) (Fin 0) (Fin 1) (Fin 1300) (Fin 1700) = Inr (Fin 1400)"
    by (simp add: scale_range_double_def fsub_Fin i q)
  have y: "scale_range_double (Fin (3 / 4)) (Fin 0) (Fin 1) (Fin 1300) (Fin 1700) = Inr (Fin 1600)"
    by (simp add: scale_range_double_def fsub_Fin i q)
  from scale_range_double_boundary_monotone [OF d, of "1 / 4" 400 1 "3 / 4" 1400 1600] s x y d
  show ?thesis by simp
qed

text \<open>
  The upper boundary is not exact and growth is not strict. With \<open>new_min\<close> and \<open>new_max\<close>
  the doubles nearest 0.2 and 0.9, \<open>scale_range(1, 0, 1, 0.2, 0.9)\<close> is
  \<open>2026619832316723 / 2 ^ 51\<close> (printed 0.8999999999999999), one unit in the last place
  below the double 0.9. And on the steering range the values 0 and \<open>2 ^ -60\<close> both give
  1300.
\<close>

theorem scale_range_double_counterexample:
  "scale_range_double (Fin 1) (Fin 0) (Fin 1)
      (Fin (3602879701896397 / 2 ^ 54)) (Fin (8106479329266893 / 2 ^ 53)) =
     Inr (Fin (2026619832316723 / 2 ^ 51)) \<and>
   (2026619832316723 / 2 ^ 51 :: real) < 8106479329266893 / 2 ^ 53 \<and>
   rnd (2 / 10) = 3602879701896397 / 2 ^ 54 \<and> rnd (9 / 10) = 8106479329266893 / 2 ^ 53 \<and>
   is_double 0 \<and> is_double 1 \<and> is_double (3602879701896397 / 2 ^ 54) \<and>
   is_double (8106479329266893 / 2 ^ 53) \<and>
   scale_range_double (Fin 0) (Fin 0) (Fin 1) (Fin 1300) (Fin 1700) = Inr (Fin 1300) \<and>
   scale_range_double (Fin (1 / 2 ^ 60)) (Fin 0) (Fin 1) (Fin 1300) (Fin 1700) = Inr (Fin 1300) \<and>
   is_double (1 / 2 ^ 60) \<and> is_double 1300 \<and> is_double 1700"
proof -
  define lo hi w r :: real where "lo = 3602879701896397 / 2 ^ 54"
    and "hi = 8106479329266893 / 2 ^ 53" and "w = 3152519739159347 / 2 ^ 52"
    and "r = 2026619832316723 / 2 ^ 51"
  define t :: real where "t = 1 / 2 ^ 60"
  have lo: "rnd lo = lo" using rnd_idem [of "2 / 10"] by (simp only: rnd_02 lo_def)
  have hi: "rnd hi = hi" using rnd_idem [of "9 / 10"] by (simp only: rnd_09 hi_def)
  have bounds: "\<bar>lo\<bar> \<le> MAXD" "\<bar>hi\<bar> \<le> MAXD" "\<bar>w\<bar> \<le> MAXD" "\<bar>r\<bar> \<le> MAXD" "\<bar>t\<bar> \<le> MAXD"
    by (simp_all add: lo_def hi_def w_def r_def t_def MAXD_def)
  have W: "to_ieee (hi - lo) = Fin w"
    using rnd_07 bounds by (simp add: to_ieee_Fin_iff lo_def hi_def w_def)
  have R: "to_ieee (w + lo) = Fin r"
    using rnd_07_02 bounds by (simp add: to_ieee_Fin_iff lo_def w_def r_def)
  have 1: "scale_range_double (Fin 1) (Fin 0) (Fin 1) (Fin lo) (Fin hi) = Inr (Fin r)"
    using to_ieee_idem [OF W] by (simp add: scale_range_double_def fsub_Fin W R)
  have t: "rnd t = t" using rnd_dyadic [of 1 60] by (simp add: t_def)
  have t400: "to_ieee (t * 400) = Fin (t * 400)"
    using rnd_dyadic [of 400 60] by (intro to_ieee_fixed) (simp_all add: t_def MAXD_def)
  have i: "to_ieee 400 = Fin 400" "to_ieee 1300 = Fin 1300" "to_ieee 1700 = Fin 1700"
    using rnd_int [of 400] rnd_int [of 1300] rnd_int [of 1700]
    by (simp_all add: to_ieee_Fin_iff MAXD_def)
  have P: "to_ieee (t * 400 + 1300) = Fin 1300"
    using rnd_plateau by (simp add: to_ieee_Fin_iff t_def MAXD_def)
  have 2: "scale_range_double (Fin 0) (Fin 0) (Fin 1) (Fin 1300) (Fin 1700) = Inr (Fin 1300)"
    by (simp add: scale_range_double_def fsub_Fin i)
  have 3: "scale_range_double (Fin t) (Fin 0) (Fin 1) (Fin 1300) (Fin 1700) = Inr (Fin 1300)"
    using to_ieee_fixed [OF t bounds(5)] by (simp add: scale_range_double_def fsub_Fin i t400 P)
  have d: "is_double 0" "is_double 1" "is_double lo" "is_double hi" "is_double t"
    "is_double 1300" "is_double 1700"
    using lo hi t bounds rnd_int [of 1300] rnd_int [of 1700] by (simp_all add: is_double_def MAXD_def)
  have "r < hi" by (simp add: r_def hi_def)
  with 1 2 3 d rnd_02 rnd_09 show ?thesis
    unfolding lo_def hi_def r_def t_def by (intro conjI) assumption+
qed

end
